theory Spec2Isabelle
  imports Main
begin

section \<open>Python values and errors\<close>

text \<open>
  The exceptions the modelled code can raise. A function that can raise returns
  \<open>py_error + 'a\<close>, with \<open>Inl\<close> for the exception.
\<close>

datatype py_error = ValueError | TypeError | IndexError | AttributeError

text \<open>
  A level as \<open>logging.getLevelName\<close> returns it and \<open>Logger.setLevel\<close> takes it:
  a number or a string.
\<close>

datatype py_level = IntLevel int | StrLevel string

text \<open>
  The two kinds of Python value that meet in the comparison of
  \<open>_get_main_module_name\<close>: a string and a tuple. Python's \<open>==\<close> between them is
  equality of these values, so a string never equals a tuple.
\<close>

datatype py_value = Str string | Tuple "py_value list"

section \<open>Strings\<close>

text \<open>\<open>str.upper\<close>, on ASCII letters (the level names are ASCII).\<close>

definition upper_char :: "char \<Rightarrow> char" where
  "upper_char c =
     (case map_of (zip ''abcdefghijklmnopqrstuvwxyz'' ''ABCDEFGHIJKLMNOPQRSTUVWXYZ'') c of
        None \<Rightarrow> c
      | Some u \<Rightarrow> u)"

definition upper :: "string \<Rightarrow> string" where
  "upper s = map upper_char s"

text \<open>
  \<open>s.split(sep)\<close> for a one-character separator. The result is never empty, so the
  first case of the \<open>case\<close> is never taken.
\<close>

fun split :: "char \<Rightarrow> string \<Rightarrow> string list" where
  "split sep [] = [[]]"
| "split sep (c # cs) =
     (if c = sep then [] # split sep cs
      else (case split sep cs of
              [] \<Rightarrow> [[c]]
            | w # ws \<Rightarrow> (c # w) # ws))"

text \<open>\<open>sep.join(xs)\<close>.\<close>

fun join :: "string \<Rightarrow> string list \<Rightarrow> string" where
  "join sep [] = []"
| "join sep [x] = x"
| "join sep (x # y # ys) = x @ sep @ join sep (y # ys)"

definition startswith :: "string \<Rightarrow> string \<Rightarrow> bool" where
  "startswith s p = (take (length p) s = p)"

definition endswith :: "string \<Rightarrow> string \<Rightarrow> bool" where
  "endswith s p = (length p \<le> length s \<and> drop (length s - length p) s = p)"

text \<open>\<open>s.replace(a, b)\<close> for single characters.\<close>

definition replace :: "char \<Rightarrow> char \<Rightarrow> string \<Rightarrow> string" where
  "replace a b s = map (\<lambda>c. if c = a then b else c) s"

text \<open>\<open>s.strip(chars)\<close>: drops leading and trailing characters that are in \<open>chars\<close>.\<close>

definition strip :: "string \<Rightarrow> string \<Rightarrow> string" where
  "strip chars s =
     rev (dropWhile (\<lambda>c. c \<in> set chars) (rev (dropWhile (\<lambda>c. c \<in> set chars) s)))"

text \<open>\<open>os.path.basename\<close> (posix): everything after the last slash.\<close>

definition basename :: "string \<Rightarrow> string" where
  "basename p = last (split (CHR ''/'') p)"

text \<open>
  \<open>os.path.join(a, *p)\<close> (posix): a component that starts with a slash replaces what was
  joined so far.
\<close>

fun path_join :: "string \<Rightarrow> string list \<Rightarrow> string" where
  "path_join path [] = path"
| "path_join path (b # bs) =
     path_join
       (if startswith b ''/'' then b
        else if path = [] \<or> endswith path ''/'' then path @ b
        else path @ ''/'' @ b) bs"

section \<open>The logging facility\<close>

text \<open>
  The standard library's table \<open>logging._nameToLevel\<close>, which
  \<open>logging.getLevelNamesMapping()\<close> copies.
\<close>

definition nameToLevel :: "string \<Rightarrow> int option" where
  "nameToLevel = map_of
     [(''CRITICAL'', 50), (''FATAL'', 50), (''ERROR'', 40), (''WARN'', 30),
      (''WARNING'', 30), (''INFO'', 20), (''DEBUG'', 10), (''NOTSET'', 0)]"

text \<open>The five severities of the specification, with their names and numbers.\<close>

datatype Severity = DEBUG | INFO | WARNING | ERROR | CRITICAL

fun severity_name :: "Severity \<Rightarrow> string" where
  "severity_name DEBUG = ''DEBUG''"
| "severity_name INFO = ''INFO''"
| "severity_name WARNING = ''WARNING''"
| "severity_name ERROR = ''ERROR''"
| "severity_name CRITICAL = ''CRITICAL''"

fun severity_level :: "Severity \<Rightarrow> int" where
  "severity_level DEBUG = 10"
| "severity_level INFO = 20"
| "severity_level WARNING = 30"
| "severity_level ERROR = 40"
| "severity_level CRITICAL = 50"

text \<open>
  \<open>logging.getLevelName\<close> on a string, the only way the code calls it: the number of a
  known name, and otherwise the string \<open>"Level " + name\<close>.
\<close>

definition getLevelName :: "string \<Rightarrow> py_level" where
  "getLevelName s =
     (case nameToLevel s of Some n \<Rightarrow> IntLevel n | None \<Rightarrow> StrLevel (''Level '' @ s))"

text \<open>\<open>logging._checkLevel\<close>: a number passes, a string must be a known name.\<close>

definition checkLevel :: "py_level \<Rightarrow> py_error + int" where
  "checkLevel lvl =
     (case lvl of
        IntLevel n \<Rightarrow> Inr n
      | StrLevel s \<Rightarrow> (case nameToLevel s of None \<Rightarrow> Inl ValueError | Some n \<Rightarrow> Inr n))"

text \<open>
  The formatter classes of the module and the handlers it builds. \<open>name_mode\<close> is the
  formatter's attribute of that name.
\<close>

datatype formatter_class = CustomFormatter | ColorFormatter

record formatter =
  cls :: formatter_class
  name_mode :: string

datatype stream = Stdout | Stderr

datatype handler =
  StreamHandler stream formatter
| TimedRotatingFileHandler (filename: string) (rotate_when: string) (backupCount: nat)
    (suffix: string) formatter

text \<open>
  A logger of the facility: its own level (0 is NOTSET), its handlers, its
  \<open>propagate\<close> flag and its parent. Loggers are referred to by key: the root logger, whose
  name is \<open>root\<close>, has the empty key, and every other logger has its name as key (no
  other logger has the empty name or the name \<open>root\<close>, see \<open>getLogger\<close>). \<open>parent\<close> is the
  key of the parent; the root has no parent, and its field is never read.
\<close>

record logger =
  level :: int
  handlers :: "handler list"
  propagate :: bool
  parent :: string

text \<open>\<open>Logger.name\<close> of the logger with a given key.\<close>

definition logger_name :: "string \<Rightarrow> string" where
  "logger_name key = (if key = [] then ''root'' else key)"

text \<open>
  What \<open>Manager.loggerDict\<close> holds under a name: a logger, or a \<open>PlaceHolder\<close> with the
  loggers below it that were created so far (the keys of its \<open>loggerMap\<close>, in insertion
  order).
\<close>

datatype dict_entry = LoggerEntry | PlaceHolder "string list"

text \<open>
  The process-wide state: the attributes of the logger of every key, the \<open>loggerDict\<close> of
  the manager, and the records that loggers have handled, each with the logger's key, the
  record's level and its message.
\<close>

record registry =
  loggers :: "string \<Rightarrow> logger"
  loggerDict :: "string \<Rightarrow> dict_entry option"
  records :: "(string \<times> int \<times> string) list"

text \<open>\<open>Logger.__init__\<close>: level NOTSET, no handlers, propagating, not linked yet.\<close>

definition Logger_init :: logger where
  "Logger_init = \<lparr>level = 0, handlers = [], propagate = True, parent = []\<rparr>"

text \<open>
  The facility when the process starts: the root logger at WARNING and an empty
  \<open>loggerDict\<close>. A key that is not in \<open>loggerDict\<close> holds the attributes that \<open>getLogger\<close>
  gives a new logger there: NOTSET, no handlers, propagating, the root as parent.
\<close>

definition fresh_registry :: registry where
  "fresh_registry =
     \<lparr>loggers = (\<lambda>n. \<lparr>level = (if n = [] then 30 else 0), handlers = [], propagate = True,
                       parent = []\<rparr>),
      loggerDict = (\<lambda>n. None),
      records = []\<rparr>"

text \<open>\<open>PlaceHolder.append\<close>: adds the logger unless it is there.\<close>

definition ph_append :: "string list \<Rightarrow> string \<Rightarrow> string list" where
  "ph_append cs name = (if name \<in> set cs then cs else cs @ [name])"

text \<open>
  The loop of \<open>Manager._fixupParents\<close>. The second argument \<open>e\<close> stands for the search
  \<open>i = name.rfind(".", 0, e)\<close> that is to be done next: the search goes down from index
  \<open>e - 1\<close>. A dot at an index \<open>i > 0\<close> gives the prefix \<open>name[:i]\<close>, which gets a
  placeholder, or is added to the one that is there, or is a logger, and then the loop ends
  with it; otherwise the next search is \<open>name.rfind(".", 0, i - 1)\<close>. A dot at index 0,
  or no dot, ends the loop with no logger found. The result is the logger found, if any,
  and the new \<open>loggerDict\<close>.
\<close>

fun fixupParents_loop ::
  "string \<Rightarrow> nat \<Rightarrow> (string \<Rightarrow> dict_entry option) \<Rightarrow>
   string option \<times> (string \<Rightarrow> dict_entry option)" where
  "fixupParents_loop name 0 d = (None, d)"
| "fixupParents_loop name (Suc e) d =
     (if name ! e \<noteq> CHR ''.'' then fixupParents_loop name e d
      else if e = 0 then (None, d)
      else (case d (take e name) of
              None \<Rightarrow>
                fixupParents_loop name (e - 1) (d(take e name \<mapsto> PlaceHolder [name]))
            | Some LoggerEntry \<Rightarrow> (Some (take e name), d)
            | Some (PlaceHolder cs) \<Rightarrow>
                fixupParents_loop name (e - 1)
                  (d(take e name \<mapsto> PlaceHolder (ph_append cs name)))))"

text \<open>
  \<open>Manager._fixupParents\<close>: the first search is \<open>name.rfind(".")\<close>; the parent is the
  logger found, and the root when there is none.
\<close>

definition fixupParents :: "registry \<Rightarrow> string \<Rightarrow> registry" where
  "fixupParents st name =
     (case fixupParents_loop name (length name) (loggerDict st) of
        (rv, d) \<Rightarrow>
          st\<lparr>loggers := (loggers st)
                (name := (loggers st name)\<lparr>parent := (case rv of None \<Rightarrow> [] | Some p \<Rightarrow> p)\<rparr>),
             loggerDict := d\<rparr>)"

text \<open>
  \<open>Manager._fixupChildren\<close>: a logger \<open>c\<close> of the placeholder is moved below the new
  logger unless the name of its parent starts with the new logger's name.
\<close>

fun fixupChildren ::
  "(string \<Rightarrow> logger) \<Rightarrow> string list \<Rightarrow> string \<Rightarrow> string \<Rightarrow> logger" where
  "fixupChildren ls [] name = ls"
| "fixupChildren ls (c # cs) name =
     fixupChildren
       (if take (length name) (logger_name (parent (ls c))) \<noteq> name
        then (ls(name := (ls name)\<lparr>parent := parent (ls c)\<rparr>))
               (c := (ls c)\<lparr>parent := name\<rparr>)
        else ls)
       cs name"

text \<open>\<open>Manager.getLogger\<close>, for a name that is a string.\<close>

definition Manager_getLogger :: "registry \<Rightarrow> string \<Rightarrow> registry" where
  "Manager_getLogger st name =
     (case loggerDict st name of
        Some LoggerEntry \<Rightarrow> st
      | Some (PlaceHolder cs) \<Rightarrow>
          fixupParents
            (st\<lparr>loggers := fixupChildren ((loggers st)(name := Logger_init)) cs name,
                loggerDict := (loggerDict st)(name \<mapsto> LoggerEntry)\<rparr>) name
      | None \<Rightarrow>
          fixupParents
            (st\<lparr>loggers := (loggers st)(name := Logger_init),
                loggerDict := (loggerDict st)(name \<mapsto> LoggerEntry)\<rparr>) name)"

text \<open>
  \<open>logging.getLogger(name)\<close>: the empty name and the name \<open>root\<close> give the root logger,
  every other name the manager's logger, which is created if need be. The result is the
  key of the logger and the new state.
\<close>

definition getLogger :: "registry \<Rightarrow> string \<Rightarrow> string \<times> registry" where
  "getLogger st name =
     (if name = [] \<or> name = ''root'' then ([], st) else (name, Manager_getLogger st name))"

text \<open>
  The loggers that the loop \<open>while c: ...; c = c.parent\<close> of \<open>hasHandlers\<close> and of
  \<open>getEffectiveLevel\<close> can visit: the logger, its parent, and so on up to the root, which
  has no parent. The manager gives a logger only the root or a logger with a shorter name
  as parent, so the walk ends at the root; a link that is not of this kind, which the
  manager never makes, is not followed.
\<close>

function chain :: "registry \<Rightarrow> string \<Rightarrow> string list" where
  "chain st key =
     key # (if key = [] \<or> length key \<le> length (parent (loggers st key)) then []
            else chain st (parent (loggers st key)))"
  by pat_completeness auto

termination
  by (relation "measure (\<lambda>(st, key). length key)") auto

declare chain.simps [simp del]

text \<open>
  \<open>Logger.hasHandlers\<close>: walks up from the logger, and stops at the first logger that
  has a handler (true) or does not propagate (false).
\<close>

fun hasHandlers_from :: "(string \<Rightarrow> logger) \<Rightarrow> string list \<Rightarrow> bool" where
  "hasHandlers_from ls [] = False"
| "hasHandlers_from ls (c # cs) =
     (if handlers (ls c) \<noteq> [] then True
      else if propagate (ls c) then hasHandlers_from ls cs
      else False)"

definition hasHandlers :: "registry \<Rightarrow> string \<Rightarrow> bool" where
  "hasHandlers st key = hasHandlers_from (loggers st) (chain st key)"

text \<open>
  \<open>Logger.getEffectiveLevel\<close>: the first level that is set on the way up, NOTSET when
  there is none.
\<close>

fun effectiveLevel_from :: "(string \<Rightarrow> logger) \<Rightarrow> string list \<Rightarrow> int" where
  "effectiveLevel_from ls [] = 0"
| "effectiveLevel_from ls (c # cs) =
     (if level (ls c) \<noteq> 0 then level (ls c) else effectiveLevel_from ls cs)"

definition getEffectiveLevel :: "registry \<Rightarrow> string \<Rightarrow> int" where
  "getEffectiveLevel st key = effectiveLevel_from (loggers st) (chain st key)"

text \<open>\<open>Logger.setLevel\<close>: raises what \<open>_checkLevel\<close> raises.\<close>

definition setLevel :: "registry \<Rightarrow> string \<Rightarrow> py_level \<Rightarrow> py_error + registry" where
  "setLevel st key lvl =
     (case checkLevel lvl of
        Inl e \<Rightarrow> Inl e
      | Inr n \<Rightarrow> Inr (st\<lparr>loggers := (loggers st)(key := (loggers st key)\<lparr>level := n\<rparr>)\<rparr>))"

text \<open>
  \<open>Logger.warning(msg)\<close>: the record is handled when WARNING is enabled for the logger
  (with \<open>logging.disable\<close> and the logger's \<open>disabled\<close> flag at their defaults).
\<close>

definition warning :: "registry \<Rightarrow> string \<Rightarrow> string \<Rightarrow> registry" where
  "warning st key msg =
     (if getEffectiveLevel st key \<le> 30 then st\<lparr>records := records st @ [(key, 30, msg)]\<rparr>
      else st)"

text \<open>The handlers attached to a logger.\<close>

definition sinks :: "registry \<Rightarrow> string \<Rightarrow> handler list" where
  "sinks st key = handlers (loggers st key)"

text \<open>
  \<open>Logger.addHandler\<close> with a handler that was just created, which the logger
  therefore does not hold yet.
\<close>

definition addHandler :: "registry \<Rightarrow> string \<Rightarrow> handler \<Rightarrow> registry" where
  "addHandler st key h =
     st\<lparr>loggers := (loggers st)(key := (loggers st key)\<lparr>handlers := handlers (loggers st key) @ [h]\<rparr>)\<rparr>"

section \<open>Level resolution\<close>

definition SYSTEM_LOG_LEVEL :: int where
  "SYSTEM_LOG_LEVEL = 30"

text \<open>
  \<open>DEFAULT_LOG_LEVEL\<close> is read once from the environment; the functions below take its
  value as \<open>dflt\<close>.
\<close>

definition DEFAULT_LOG_LEVEL :: "(string \<Rightarrow> string option) \<Rightarrow> string" where
  "DEFAULT_LOG_LEVEL env =
     upper (case env ''DEFAULT_LOG_LEVEL'' of None \<Rightarrow> ''INFO'' | Some v \<Rightarrow> v)"

text \<open>The message \<open>'Unknown log level "%s"' % s\<close>.\<close>

definition unknown_level_msg :: "string \<Rightarrow> string" where
  "unknown_level_msg s = ''Unknown log level '' @ [CHR 0x22] @ s @ [CHR 0x22]"

definition set_system_log_level :: "registry \<Rightarrow> string \<Rightarrow> py_error + registry" where
  "set_system_log_level st log = setLevel st log (IntLevel SYSTEM_LOG_LEVEL)"

definition set_default_log_level :: "string \<Rightarrow> registry \<Rightarrow> string \<Rightarrow> py_error + registry" where
  "set_default_log_level dflt st log =
     (if nameToLevel dflt \<noteq> None then setLevel st log (getLevelName dflt)
      else (case set_system_log_level st log of
              Inl e \<Rightarrow> Inl e
            | Inr st' \<Rightarrow> Inr (warning st' log (unknown_level_msg dflt))))"

text \<open>Only the \<open>ValueError\<close> of \<open>setLevel\<close> is caught.\<close>

definition set_log_level :: "string \<Rightarrow> registry \<Rightarrow> string \<Rightarrow> string \<Rightarrow> py_error + registry" where
  "set_log_level dflt st log lvl_str =
     (case setLevel st log (getLevelName (upper lvl_str)) of
        Inr st' \<Rightarrow> Inr st'
      | Inl ValueError \<Rightarrow>
          (case set_default_log_level dflt st log of
             Inl e \<Rightarrow> Inl e
           | Inr st' \<Rightarrow> Inr (warning st' log (unknown_level_msg (upper lvl_str))))
      | Inl e \<Rightarrow> Inl e)"

section \<open>Handlers and the root logger\<close>

text \<open>
  \<open>CustomFormatter.__init__\<close>: \<open>kwargs.pop('namemode', 'file')\<close>. The class is the one
  that is instantiated; \<open>ColorFormatter\<close> inherits the constructor.
\<close>

definition formatter_init :: "formatter_class \<Rightarrow> string option \<Rightarrow> formatter" where
  "formatter_init c namemode =
     \<lparr>cls = c, name_mode = (case namemode of None \<Rightarrow> ''file'' | Some m \<Rightarrow> m)\<rparr>"

definition get_console_handler :: "string \<Rightarrow> handler" where
  "get_console_handler namemode =
     StreamHandler Stdout (formatter_init ColorFormatter (Some namemode))"

text \<open>Opening the file is the facility's; the model keeps the handler's settings.\<close>

definition get_file_handler :: "string \<Rightarrow> string \<Rightarrow> handler" where
  "get_file_handler fname namemode =
     TimedRotatingFileHandler fname ''midnight'' 30 ''%Y%m%d''
       (formatter_init ColorFormatter (Some namemode))"

definition init_root_logger :: "registry \<Rightarrow> string \<Rightarrow> string \<Rightarrow> string \<Rightarrow> py_error + registry" where
  "init_root_logger st root_name logpath namemode =
     (case getLogger st root_name of
        (log, st0) \<Rightarrow>
          (case setLevel st0 log (IntLevel 10) of
             Inl e \<Rightarrow> Inl e
           | Inr st1 \<Rightarrow>
               (let st2 = addHandler st1 log (get_console_handler namemode) in
                Inr (if logpath \<noteq> [] then addHandler st2 log (get_file_handler logpath namemode)
                     else st2))))"

text \<open>
  \<open>get_logger\<close>: \<open>env\<close> is the process environment, \<open>lvl_env\<close> the optional name of a
  variable in it (\<open>None\<close> and the empty string are both falsy). After the root was
  initialized the logger is looked up again. The result is the logger's key and the new
  state.
\<close>

definition get_logger ::
  "(string \<Rightarrow> string option) \<Rightarrow> string \<Rightarrow> registry \<Rightarrow> string \<Rightarrow> string \<Rightarrow> string option \<Rightarrow>
   string \<Rightarrow> string \<Rightarrow> string \<Rightarrow> py_error + string \<times> registry" where
  "get_logger env dflt st name lvl_str lvl_env root_logger logpath namemode =
     (case getLogger st name of
        (log0, st0) \<Rightarrow>
          (case (if \<not> hasHandlers st0 log0 then
                   (case init_root_logger st0 root_logger logpath namemode of
                      Inl e \<Rightarrow> Inl e
                    | Inr st' \<Rightarrow> Inr (getLogger st' name))
                 else Inr (log0, st0)) of
             Inl e \<Rightarrow> Inl e
           | Inr (log, st1) \<Rightarrow>
               (let lvl = (case lvl_env of
                             None \<Rightarrow> lvl_str
                           | Some v \<Rightarrow>
                               if v \<noteq> [] then (case env v of None \<Rightarrow> dflt | Some x \<Rightarrow> x)
                               else lvl_str) in
                case set_log_level dflt st1 log lvl of
                  Inl e \<Rightarrow> Inl e
                | Inr st2 \<Rightarrow> Inr (log, st2))))"

section \<open>Formatting\<close>

record log_record =
  record_name :: string
  levelno :: int

text \<open>\<open>[x[0] for x in xs]\<close>: indexing an empty string raises \<open>IndexError\<close>.\<close>

fun first_chars :: "string list \<Rightarrow> py_error + string list" where
  "first_chars [] = Inr []"
| "first_chars (x # xs) =
     (case x of
        [] \<Rightarrow> Inl IndexError
      | c # _ \<Rightarrow> (case first_chars xs of Inl e \<Rightarrow> Inl e | Inr n \<Rightarrow> Inr ([c] # n)))"

text \<open>
  \<open>CustomFormatter._get_name\<close>. \<open>split\<close> never returns the empty list, so the index
  \<open>[-1]\<close> is the last element.
\<close>

definition get_name :: "formatter \<Rightarrow> log_record \<Rightarrow> py_error + string" where
  "get_name self r =
     (if name_mode self = ''leaf'' then Inr (last (split (CHR ''.'') (record_name r)))
      else if name_mode self = ''full'' then Inr (record_name r)
      else if name_mode self = ''short'' then
        (let names = split (CHR ''.'') (record_name r) in
         case first_chars (butlast names) of
           Inl e \<Rightarrow> Inl e
         | Inr n \<Rightarrow> Inr (join ''.'' (n @ [last names])))
      else Inr (record_name r))"







section \<open>Module names\<close>

text \<open>
  A module as the code reads it: \<open>__name__\<close>, \<open>__package__\<close> (which may be \<open>None\<close>) and
  \<open>__file__\<close>, which may be absent (reading it raises \<open>AttributeError\<close>), \<open>None\<close> or a
  path.
\<close>

datatype file_attr = NoAttr | IsNone | Path string

record py_module =
  mod_name :: string
  mod_package :: "string option"
  mod_file :: file_attr

text \<open>The file name without its directory and without the extension \<open>.py\<close>.\<close>

definition file_stem :: "string \<Rightarrow> string" where
  "file_stem mfname =
     (let fname = basename mfname;
          ext = ''.py'' in
      if endswith fname ext then take (length fname - length ext) fname else fname)"

text \<open>\<open>p.replace('/', '.').strip('/.')\<close>.\<close>

definition dotted :: "string \<Rightarrow> string" where
  "dotted p = strip ''/.'' (replace (CHR ''/'') (CHR ''.'') p)"

text \<open>\<open>_get_main_module_name\<close>: the stem, a string, is compared with a tuple.\<close>

definition get_main_module_name :: "py_module \<Rightarrow> string \<Rightarrow> py_error + string" where
  "get_main_module_name m prefix =
     (let pkg = (case mod_package m of None \<Rightarrow> [] | Some p \<Rightarrow> p) in
      case mod_file m of
        NoAttr \<Rightarrow> Inl AttributeError
      | IsNone \<Rightarrow> Inr pkg
      | Path mfname \<Rightarrow>
          (let fname = file_stem mfname in
           if Str fname = Tuple [Str ''__init__'', Str ''__main__''] then Inr pkg
           else Inr (dotted (path_join prefix [pkg, fname]))))"

text \<open>
  \<open>get_module_name\<close>: \<open>caller\<close> is what \<open>inspect.getmodule\<close> finds for the caller's frame.
\<close>

definition get_module_name :: "py_module option \<Rightarrow> string \<Rightarrow> py_error + string" where
  "get_module_name caller prefix =
     (case caller of
        None \<Rightarrow> Inr prefix
      | Some m \<Rightarrow>
          if mod_name m \<noteq> ''__main__'' then Inr (dotted (path_join prefix [mod_name m]))
          else get_main_module_name m prefix)"


section \<open>Properties of the string functions\<close>

lemma split_not_Nil: "split c s \<noteq> []"
  by (induction s) (simp_all split: list.splits)

lemma split_no_sep: "c \<notin> set s \<Longrightarrow> split c s = [s]"
  by (induction s) auto

lemma split_append_sep: "c \<notin> set x \<Longrightarrow> split c (x @ c # r) = x # split c r"
  by (induction x) auto

lemma split_join:
  "xs \<noteq> [] \<Longrightarrow> \<forall>s\<in>set xs. c \<notin> set s \<Longrightarrow> split c (join [c] xs) = xs"
proof (induction "[c]" xs rule: join.induct)
  case 1
  then show ?case by simp
next
  case (2 x)
  then show ?case by (simp add: split_no_sep)
next
  case (3 x y ys)
  then show ?case by (simp add: split_append_sep)
qed

lemma first_chars_nonempty:
  "\<forall>s\<in>set xs. s \<noteq> [] \<Longrightarrow> first_chars xs = Inr (map (\<lambda>s. [hd s]) xs)"
proof (induction xs)
  case Nil
  then show ?case by simp
next
  case (Cons x xs)
  then show ?case by (cases x) simp_all
qed

section \<open>Properties of the level functions\<close>

lemma nameToLevel_Level: "nameToLevel (''Level '' @ s) = None"
  by (simp add: nameToLevel_def)

lemma nameToLevel_severity: "nameToLevel (severity_name sev) = Some (severity_level sev)"
  by (cases sev) (simp_all add: nameToLevel_def)

lemma nameToLevel_known:
  "nameToLevel s = Some n \<Longrightarrow> n \<in> {0, 10, 20, 30, 40, 50}"
  by (auto simp: nameToLevel_def split: if_splits)

lemma nameToLevel_NOTSET: "nameToLevel s = Some n \<Longrightarrow> (n = 0) = (s = ''NOTSET'')"
  by (auto simp: nameToLevel_def split: if_splits)

lemma severity_level_cases:
  "n \<in> {10, 20, 30, 40, 50} \<Longrightarrow> \<exists>sev. n = severity_level sev"
proof -
  assume "n \<in> {10, 20, 30, 40, 50}"
  then consider "n = severity_level DEBUG" | "n = severity_level INFO"
    | "n = severity_level WARNING" | "n = severity_level ERROR"
    | "n = severity_level CRITICAL"
    by auto
  then show ?thesis by cases blast+
qed

lemma severity_level_not_NOTSET: "severity_level sev \<noteq> 0"
  by (cases sev) simp_all

lemma setLevel_getLevelName:
  "setLevel st key (getLevelName s) =
     (case nameToLevel s of
        None \<Rightarrow> Inl ValueError
      | Some n \<Rightarrow> Inr (st\<lparr>loggers := (loggers st)(key := (loggers st key)\<lparr>level := n\<rparr>)\<rparr>))"
proof (cases "nameToLevel s")
  case None
  then show ?thesis
    using nameToLevel_Level [of s]
    by (simp add: setLevel_def checkLevel_def getLevelName_def del: append.simps)
next
  case (Some n)
  then show ?thesis
    by (simp add: setLevel_def checkLevel_def getLevelName_def)
qed

lemma getEffectiveLevel_own:
  "level (loggers st key) \<noteq> 0 \<Longrightarrow> getEffectiveLevel st key = level (loggers st key)"
  unfolding getEffectiveLevel_def by (subst chain.simps) simp

lemma set_default_log_level_eq:
  "set_default_log_level dflt st log =
     Inr (case nameToLevel dflt of
            Some n \<Rightarrow> st\<lparr>loggers := (loggers st)(log := (loggers st log)\<lparr>level := n\<rparr>)\<rparr>
          | None \<Rightarrow>
              st\<lparr>loggers := (loggers st)(log := (loggers st log)\<lparr>level := 30\<rparr>),
                 records := records st @ [(log, 30, unknown_level_msg dflt)]\<rparr>)"
proof (cases "nameToLevel dflt")
  case None
  then show ?thesis
    by (simp add: set_default_log_level_def set_system_log_level_def setLevel_def
        checkLevel_def SYSTEM_LOG_LEVEL_def warning_def getEffectiveLevel_own)
next
  case (Some n)
  then show ?thesis
    by (simp add: set_default_log_level_def setLevel_getLevelName)
qed

lemma set_log_level_known:
  "nameToLevel (upper lvl_str) = Some n \<Longrightarrow>
   set_log_level dflt st log lvl_str =
     Inr (st\<lparr>loggers := (loggers st)(log := (loggers st log)\<lparr>level := n\<rparr>)\<rparr>)"
  by (simp add: set_log_level_def setLevel_getLevelName)

lemma set_log_level_unknown:
  "nameToLevel (upper lvl_str) = None \<Longrightarrow>
   set_log_level dflt st log lvl_str =
     (case set_default_log_level dflt st log of
        Inl e \<Rightarrow> Inl e
      | Inr st' \<Rightarrow> Inr (warning st' log (unknown_level_msg (upper lvl_str))))"
  by (simp add: set_log_level_def setLevel_getLevelName)

lemma set_log_level_total:
  "\<exists>st'. set_log_level dflt st log lvl_str = Inr st' \<and>
     level (loggers st' log) =
       (case nameToLevel (upper lvl_str) of
          Some n \<Rightarrow> n
        | None \<Rightarrow> (case nameToLevel dflt of Some m \<Rightarrow> m | None \<Rightarrow> 30))"
proof (cases "nameToLevel (upper lvl_str)")
  case None
  then show ?thesis
    by (simp add: set_log_level_unknown set_default_log_level_eq warning_def
        split: option.splits)
next
  case (Some n)
  then show ?thesis by (simp add: set_log_level_known)
qed

section \<open>Claims about level resolution\<close>

text \<open>
  Claim C5 says that \<open>set_log_level\<close> always leaves the logger at a known-good severity.
  The lookup is in the facility's table, which also holds the name \<open>NOTSET\<close> with the
  level 0, the level of no severity: on the root logger of a fresh registry the request
  \<open>notset\<close> is accepted without any fallback, and leaves both the own and the effective
  level at 0.
\<close>

theorem set_log_level_notset_counterexample:
  "\<not> isl (set_log_level ''INFO'' fresh_registry [] ''notset'') \<and>
   level (loggers (projr (set_log_level ''INFO'' fresh_registry [] ''notset'')) []) = 0 \<and>
   getEffectiveLevel (projr (set_log_level ''INFO'' fresh_registry [] ''notset'')) [] = 0 \<and>
   0 \<notin> set (map severity_level [DEBUG, INFO, WARNING, ERROR, CRITICAL])"
proof -
  have u: "upper ''notset'' = ''NOTSET''"
    by (simp add: upper_def upper_char_def)
  have n: "nameToLevel ''NOTSET'' = Some 0"
    by (simp add: nameToLevel_def)
  have s: "set_log_level ''INFO'' fresh_registry [] ''notset'' =
      Inr (fresh_registry\<lparr>loggers := (loggers fresh_registry)
             ([] := (loggers fresh_registry [])\<lparr>level := 0\<rparr>)\<rparr>)"
    by (rule set_log_level_known) (simp add: u n)
  show ?thesis
    unfolding s by (simp add: getEffectiveLevel_def chain.simps)
qed

text \<open>
  Claim C5, amended. For every input string, \<open>set_log_level\<close> returns without raising,
  and the logger's own level is then the first that the fallback chain gives: the level
  that the facility's table has for the uppercased request; else the level it has for the
  environment default; else the level of WARNING. That level is the level of one of the
  five severities, except that it is 0 (NOTSET) exactly when the name that decides is
  \<open>NOTSET\<close>: the uppercased request is \<open>NOTSET\<close>, or the request is unknown and the
  default is \<open>NOTSET\<close>.
\<close>

theorem set_log_level_never_raises:
  "\<exists>st'. set_log_level dflt st log lvl_str = Inr st' \<and>
     level (loggers st' log) =
       (case nameToLevel (upper lvl_str) of
          Some n \<Rightarrow> n
        | None \<Rightarrow> (case nameToLevel dflt of Some m \<Rightarrow> m | None \<Rightarrow> severity_level WARNING)) \<and>
     (level (loggers st' log) = 0 \<or> (\<exists>sev. level (loggers st' log) = severity_level sev)) \<and>
     (level (loggers st' log) = 0) =
       (upper lvl_str = ''NOTSET'' \<or> nameToLevel (upper lvl_str) = None \<and> dflt = ''NOTSET'')"
proof -
  define l where "l =
    (case nameToLevel (upper lvl_str) of
       Some n \<Rightarrow> n
     | None \<Rightarrow> (case nameToLevel dflt of Some m \<Rightarrow> m | None \<Rightarrow> 30))"
  obtain st' where r: "set_log_level dflt st log lvl_str = Inr st'"
    and lv: "level (loggers st' log) = l"
    unfolding l_def using set_log_level_total by blast
  have chain_level: "l =
    (case nameToLevel (upper lvl_str) of
       Some n \<Rightarrow> n
     | None \<Rightarrow> (case nameToLevel dflt of Some m \<Rightarrow> m | None \<Rightarrow> severity_level WARNING))"
    by (simp add: l_def split: option.splits)
  have mem: "l \<in> {0, 10, 20, 30, 40, 50}"
    unfolding l_def
    using nameToLevel_known [of "upper lvl_str"] nameToLevel_known [of dflt]
    by (auto split: option.splits)
  have sev: "l = 0 \<or> (\<exists>sev. l = severity_level sev)"
  proof (cases "l = 0")
    case True
    then show ?thesis by simp
  next
    case False
    with mem have "l \<in> {10, 20, 30, 40, 50}" by simp
    then show ?thesis by (simp add: severity_level_cases)
  qed
  have none_lookup: "nameToLevel ''NOTSET'' = Some 0"
    by (simp add: nameToLevel_def)
  have zero: "(l = 0) =
      (upper lvl_str = ''NOTSET'' \<or> nameToLevel (upper lvl_str) = None \<and> dflt = ''NOTSET'')"
  proof (cases "nameToLevel (upper lvl_str)")
    case (Some n)
    then have "l = n" by (simp add: l_def)
    with Some nameToLevel_NOTSET [of "upper lvl_str" n] show ?thesis by simp
  next
    case None
    note req = None
    show ?thesis
    proof (cases "nameToLevel dflt")
      case None
      with req have "l = 30" by (simp add: l_def)
      moreover from None have "dflt \<noteq> ''NOTSET''" using none_lookup by auto
      moreover from req have "upper lvl_str \<noteq> ''NOTSET''" using none_lookup by auto
      ultimately show ?thesis by simp
    next
      case (Some m)
      with req have "l = m" by (simp add: l_def)
      moreover from req have "upper lvl_str \<noteq> ''NOTSET''" using none_lookup by auto
      ultimately show ?thesis using req Some nameToLevel_NOTSET [of dflt m] by simp
    qed
  qed
  from r lv chain_level sev zero show ?thesis by simp
qed

text \<open>
  Claim C4. For every severity name supplied in any letter case (a string whose
  uppercase form is the name), \<open>set_log_level\<close> sets the logger's own level, and so
  its effective level, to that severity, and logs nothing.
\<close>

theorem set_log_level_valid_name:
  "upper lvl_str = severity_name sev \<Longrightarrow>
   \<exists>st'. set_log_level dflt st log lvl_str = Inr st' \<and>
     level (loggers st' log) = severity_level sev \<and>
     getEffectiveLevel st' log = severity_level sev \<and>
     records st' = records st"
proof -
  assume u: "upper lvl_str = severity_name sev"
  have "severity_level sev \<noteq> 0" by (cases sev) simp_all
  then show ?thesis
    using set_log_level_known [of lvl_str "severity_level sev" dflt st log]
    by (simp add: u nameToLevel_severity getEffectiveLevel_own)
qed

theorem set_log_level_valid_name_witness:
  "upper ''Info'' = severity_name INFO \<and>
   (\<exists>st'. set_log_level ''INFO'' fresh_registry ''app'' ''Info'' = Inr st' \<and>
     level (loggers st' ''app'') = 20 \<and> getEffectiveLevel st' ''app'' = 20 \<and>
     records st' = [])"
proof -
  have u: "upper ''Info'' = severity_name INFO"
    by (simp add: upper_def upper_char_def)
  show ?thesis
    using u set_log_level_valid_name [OF u, of "''INFO''" fresh_registry "''app''"]
    by (simp add: fresh_registry_def)
qed

text \<open>
  Claim C2 says that exactly one warning is logged when neither the request nor the
  environment default names a level. On a fresh registry, with the default \<open>NOPE\<close> and
  the request \<open>bogus\<close>, two are logged: one for the default, one for the request.
\<close>

theorem set_log_level_unknown_counterexample:
  "map_sum id records (set_log_level ''NOPE'' fresh_registry ''app'' ''bogus'') =
     Inr [(''app'', 30, unknown_level_msg ''NOPE''), (''app'', 30, unknown_level_msg ''BOGUS'')]"
proof -
  have a: "nameToLevel (upper ''bogus'') = None"
    by (simp add: nameToLevel_def upper_def upper_char_def)
  have b: "nameToLevel ''NOPE'' = None"
    by (simp add: nameToLevel_def)
  have u: "upper ''bogus'' = ''BOGUS''"
    by (simp add: upper_def upper_char_def)
  show ?thesis
    by (simp add: set_log_level_unknown [OF a] set_default_log_level_eq b u warning_def
        getEffectiveLevel_own fresh_registry_def)
qed

text \<open>
  Claim C2, amended. When neither the uppercased request nor the environment default
  names a level, \<open>set_log_level\<close> leaves the logger at WARNING and logs exactly two
  warnings during the call: first one that reports the default, then one that reports
  the request.
\<close>

theorem set_log_level_unknown_two_warnings:
  "nameToLevel (upper lvl_str) = None \<Longrightarrow> nameToLevel dflt = None \<Longrightarrow>
   \<exists>st'. set_log_level dflt st log lvl_str = Inr st' \<and>
     level (loggers st' log) = severity_level WARNING \<and>
     records st' = records st @
       [(log, 30, unknown_level_msg dflt), (log, 30, unknown_level_msg (upper lvl_str))]"
  by (simp add: set_log_level_unknown set_default_log_level_eq warning_def
      getEffectiveLevel_own)

theorem set_log_level_unknown_two_warnings_witness:
  "nameToLevel (upper ''bogus'') = None \<and> nameToLevel ''NOPE'' = None \<and>
   (\<exists>st'. set_log_level ''NOPE'' fresh_registry ''app'' ''bogus'' = Inr st' \<and>
     level (loggers st' ''app'') = 30 \<and>
     records st' =
       [(''app'', 30, unknown_level_msg ''NOPE''), (''app'', 30, unknown_level_msg ''BOGUS'')])"
proof -
  have a: "nameToLevel (upper ''bogus'') = None"
    by (simp add: nameToLevel_def upper_def upper_char_def)
  have b: "nameToLevel ''NOPE'' = None"
    by (simp add: nameToLevel_def)
  have u: "upper ''bogus'' = ''BOGUS''"
    by (simp add: upper_def upper_char_def)
  show ?thesis
    using a b set_log_level_unknown_two_warnings [OF a b, of fresh_registry "''app''"]
    by (simp add: fresh_registry_def u)
qed


section \<open>Claims about the root logger\<close>

lemma init_root_logger_eq:
  "init_root_logger st root_name logpath namemode =
     (case getLogger st root_name of
        (log, st0) \<Rightarrow>
          Inr (st0\<lparr>loggers := (loggers st0)(log :=
                 (loggers st0 log)
                   \<lparr>level := 10,
                    handlers := handlers (loggers st0 log) @
                      (if logpath = [] then [get_console_handler namemode]
                       else [get_console_handler namemode,
                             get_file_handler logpath namemode])\<rparr>)\<rparr>))"
  by (simp add: init_root_logger_def setLevel_def checkLevel_def addHandler_def Let_def
      split: prod.splits)



text \<open>
  Claim C3. Two calls of \<open>get_logger\<close> with the same root name are to attach handlers to
  that root once. The guard of \<open>get_logger\<close> asks \<open>hasHandlers\<close> of the requested logger,
  which looks at that logger and its ancestors, not at the root that is named. In a fresh
  registry, two calls for the logger \<open>other\<close> with the root name \<open>app\<close> both return,
  and \<open>app\<close> has one handler after the first call and two after the second.
\<close>

theorem get_logger_twice_reattaches:
  "(case get_logger (\<lambda>v. None) ''INFO'' fresh_registry ''other'' ''INFO'' None ''app'' [] ''leaf'' of
      Inl e \<Rightarrow> None
    | Inr (log1, st1) \<Rightarrow>
        (case get_logger (\<lambda>v. None) ''INFO'' st1 ''other'' ''INFO'' None ''app'' [] ''leaf'' of
           Inl e \<Rightarrow> None
         | Inr (log2, st2) \<Rightarrow>
             Some (length (sinks st1 ''app''), length (sinks st2 ''app'')))) = Some (1, 2)"
proof -
  have u: "nameToLevel (upper ''INFO'') = Some 20"
    by (simp add: nameToLevel_def upper_def upper_char_def)
  show ?thesis
    by (simp add: get_logger_def getLogger_def Manager_getLogger_def fixupParents_def
        hasHandlers_def chain.simps fresh_registry_def Logger_init_def init_root_logger_eq
        set_log_level_known [OF u] sinks_def)
qed


section \<open>Claims about display names\<close>

text \<open>
  Claim C6. For every dotted name made of non-empty segments (one or more segments, none
  of them empty or holding a dot, joined by dots), the display name is: in the mode
  \<open>short\<close>, the first character of every segment but the last, and the last segment,
  joined by dots; in the mode \<open>leaf\<close>, the last segment; in the mode \<open>full\<close>, the name
  unchanged. For \<open>alpha.beta.gamma\<close> these are \<open>a.b.gamma\<close>, \<open>gamma\<close> and
  \<open>alpha.beta.gamma\<close>.
\<close>

theorem get_name_modes:
  assumes "segs \<noteq> []" and "\<forall>s\<in>set segs. s \<noteq> [] \<and> CHR ''.'' \<notin> set s"
  shows "get_name (f\<lparr>name_mode := ''short''\<rparr>) (r\<lparr>record_name := join ''.'' segs\<rparr>) =
           Inr (join ''.'' (map (\<lambda>s. [hd s]) (butlast segs) @ [last segs])) \<and>
         get_name (f\<lparr>name_mode := ''leaf''\<rparr>) (r\<lparr>record_name := join ''.'' segs\<rparr>) =
           Inr (last segs) \<and>
         get_name (f\<lparr>name_mode := ''full''\<rparr>) (r\<lparr>record_name := join ''.'' segs\<rparr>) =
           Inr (join ''.'' segs)"
proof -
  from assms have sp: "split (CHR ''.'') (join ''.'' segs) = segs"
    using split_join [of segs "CHR ''.''"] by simp
  from assms have "\<forall>s\<in>set (butlast segs). s \<noteq> []"
    by (auto dest: in_set_butlastD)
  then have fc: "first_chars (butlast segs) = Inr (map (\<lambda>s. [hd s]) (butlast segs))"
    by (rule first_chars_nonempty)
  show ?thesis by (simp add: get_name_def sp fc)
qed

theorem get_name_modes_witness:
  "get_name \<lparr>cls = ColorFormatter, name_mode = ''short''\<rparr>
     \<lparr>record_name = ''alpha.beta.gamma'', levelno = 20\<rparr> = Inr ''a.b.gamma'' \<and>
   get_name \<lparr>cls = ColorFormatter, name_mode = ''leaf''\<rparr>
     \<lparr>record_name = ''alpha.beta.gamma'', levelno = 20\<rparr> = Inr ''gamma'' \<and>
   get_name \<lparr>cls = ColorFormatter, name_mode = ''full''\<rparr>
     \<lparr>record_name = ''alpha.beta.gamma'', levelno = 20\<rparr> = Inr ''alpha.beta.gamma''"
proof -
  have a: "[''alpha'', ''beta'', ''gamma''] \<noteq> []" by simp
  have b: "\<forall>s\<in>set [''alpha'', ''beta'', ''gamma'']. s \<noteq> [] \<and> CHR ''.'' \<notin> set s" by simp
  from get_name_modes [OF a b, of "\<lparr>cls = ColorFormatter, name_mode = ''x''\<rparr>"
      "\<lparr>record_name = [], levelno = 20\<rparr>"]
  show ?thesis by simp
qed

text \<open>
  Claim C9. A formatter constructed with a name mode other than \<open>leaf\<close>, \<open>full\<close> and
  \<open>short\<close> gives the record's name unchanged as display name. A formatter constructed
  without a name mode has the mode \<open>file\<close>, and so gives the record's name unchanged too.
\<close>

theorem get_name_unrecognized_mode:
  "(mode \<notin> {''leaf'', ''full'', ''short''} \<longrightarrow>
      get_name (formatter_init c (Some mode)) r = Inr (record_name r)) \<and>
   name_mode (formatter_init c None) = ''file'' \<and>
   get_name (formatter_init c None) r = Inr (record_name r)"
  by (simp add: get_name_def formatter_init_def)

theorem get_name_unrecognized_mode_witness:
  "''verbose'' \<notin> {''leaf'', ''full'', ''short''} \<and>
   get_name (formatter_init ColorFormatter (Some ''verbose''))
     \<lparr>record_name = ''alpha.beta.gamma'', levelno = 20\<rparr> = Inr ''alpha.beta.gamma'' \<and>
   get_name (formatter_init ColorFormatter None)
     \<lparr>record_name = ''alpha.beta.gamma'', levelno = 20\<rparr> = Inr ''alpha.beta.gamma''"
  using get_name_unrecognized_mode [of "''verbose''" ColorFormatter
      "\<lparr>record_name = ''alpha.beta.gamma'', levelno = 20\<rparr>"]
  by simp


section \<open>Claims about templates\<close>







section \<open>Claims about module names\<close>

text \<open>
  Claim C8. For every prefix, when no module is found for the caller's frame,
  \<open>get_module_name\<close> returns the prefix unchanged, and does not raise.
\<close>

theorem get_module_name_no_module:
  "get_module_name None prefix = Inr prefix"
  by (simp add: get_module_name_def)




end
